theory Spec2Isabelle
  imports Complex_Main "HOL-Library.Word"
begin

unbundle bit_operations_syntax

section \<open>The kobuki driver (kobuki\_driver/src/driver/kobuki.cpp)\<close>

text \<open>
  A shallow embedding of the driver class \<open>Kobuki\<close> and of \<open>PacketFinder::checkSum\<close>.

  Conventions of the embedding:
  \<^item> \<open>unsigned char\<close> is \<open>8 word\<close>; \<open>short\<close> and \<open>unsigned short\<close> are \<open>16 word\<close>, read
    with \<open>sint\<close> and \<open>uint\<close> respectively.
  \<^item> A \<open>double\<close> is the real number it denotes; infinities and NaN are not
    represented. In \<open>setCommand\<close>, whose results are truncate_doubled to integers, every
    arithmetic operation is rounded as IEEE 754 binary64 does (to the nearest double,
    ties to even), and an operation that overflows gives \<open>None\<close>. In the odometry,
    whose results stay doubles, the operations are exact. The literals \<open>0.0f\<close>,
    \<open>2.0f\<close>, \<open>1000.0f\<close> are exact in both.
  \<^item> The conversion \<open>(short) d\<close> of a double truncate_doubles towards zero; when the truncate_doubled
    value does not fit a \<open>short\<close> the behaviour is undefined in C++ and the model
    returns \<open>None\<close>.
  \<^item> The function-local statics \<open>init_l\<close>, \<open>init_r\<close> of \<open>updateOdometry\<close> are fields of
    the state.
  \<^item> The bytes handed to \<open>serial.write\<close> are appended to \<open>serial_tx\<close>; the signals
    emitted on the sigslots are appended to \<open>emitted\<close>. Console output and \<open>pubtime\<close>
    (which returns at once) are not modelled.
  \<^item> The class declaration (kobuki.hpp), the message types of kobuki\_comms and the ecl
    library are not part of the source at hand. The constants \<open>tick_to_rad\<close>,
    \<open>tick_to_mm\<close> are fields that no operation changes, the numbering of the header
    ids is a parameter \<open>hid\<close>, and the forward kinematics is a parameter \<open>forward\<close>.
\<close>

type_synonym byte = "8 word"

subsection \<open>Data\<close>

text \<open>The fields of \<open>kobuki_default.data\<close> that the driver reads.\<close>

record sensor_data =
  time_stamp :: "16 word"
  left_encoder :: "16 word"
  right_encoder :: "16 word"

text \<open>\<open>kobuki_comms::Header\<close>: the header ids the two switches of \<open>runnable\<close> name.\<close>

datatype header =
    header_default | header_ir | header_dock_ir | header_inertia | header_cliff
  | header_current | header_magnet | header_time | header_hw | header_fw
  | header_st_gyro | header_eeprom | header_gp_input

text \<open>The sigslot signals of the driver that \<open>runnable\<close> emits.\<close>

datatype signal =
    sig_wheel_state | sig_sensor_data | sig_ir | sig_dock_ir | sig_inertia | sig_cliff
  | sig_current | sig_magnet | sig_hw | sig_fw | sig_time | sig_st_gyro | sig_eeprom
  | sig_gp_input

record kobuki =
  protocol_version :: string
  is_connected :: bool
  is_running :: bool
  is_enabled :: bool
  bias :: real
  tick_to_rad :: real
  tick_to_mm :: real
  init_l :: bool
  init_r :: bool
  last_tick_left :: "16 word"
  last_tick_right :: "16 word"
  last_rad_left :: real
  last_rad_right :: real
  last_mm_left :: real
  last_mm_right :: real
  last_timestamp :: "16 word"
  last_diff_time :: real
  last_velocity_left :: real
  last_velocity_right :: real
  speed :: "16 word"
  radius :: "16 word"
  kobuki_default :: sensor_data
  data_buffer :: "byte list"
  sig_index :: "byte list"
  serial_tx :: "byte list"
  emitted :: "signal list"

text \<open>\<open>device_comms::JointState\<close>, as far as \<open>getJointState\<close> uses it.\<close>

record joint_state =
  name :: string
  position :: real
  velocity :: real
  enabled :: bool

text \<open>What \<open>updateOdometry\<close> writes through its reference parameters. A pose is
  \<open>(x, y, heading)\<close>. The pose rates divide by \<open>last_diff_time\<close>; they are \<open>None\<close> when
  that is 0, where the doubles of the source are infinite or NaN.\<close>

type_synonym pose = "real \<times> real \<times> real"

record odometry =
  wheel_left_position :: real
  wheel_left_velocity :: real
  wheel_right_position :: real
  wheel_right_velocity :: real
  pose_update :: pose
  pose_update_rates :: "pose option"

subsection \<open>PacketFinder::checkSum\<close>

text \<open>The XOR of \<open>buffer[2]\<close> up to the last byte of the buffer is 0.\<close>

definition checkSum :: "byte list \<Rightarrow> bool" where
  "checkSum buffer =
     (let packet_size = length buffer;
          cs = fold (\<lambda>i cs. cs XOR buffer ! i) [2..<packet_size] (0 :: byte)
      in if cs \<noteq> 0 then False else True)"

subsection \<open>Double arithmetic\<close>

text \<open>The binary exponent of a positive real: \<open>2 ^ e \<le> x < 2 ^ (e + 1)\<close>.\<close>

function scale_exp :: "real \<Rightarrow> int" where
  "scale_exp x =
     (if x \<le> 0 then 0
      else if x < 1 then scale_exp (2 * x) - 1
      else if 2 \<le> x then scale_exp (x / 2) + 1
      else 0)"
  by pat_completeness auto
termination
proof (relation "measure (\<lambda>x. if x < 1 then nat \<lceil>- log 2 x\<rceil> else nat \<lfloor>log 2 x\<rfloor>)")
  show "wf (measure (\<lambda>x::real. if x < 1 then nat \<lceil>- log 2 x\<rceil> else nat \<lfloor>log 2 x\<rfloor>))"
    by simp
next
  fix x :: real
  assume a: "\<not> x \<le> 0" "x < 1"
  have l: "log 2 (2 * x) = 1 + log 2 x" using a by (simp add: log_mult)
  have n: "log 2 x < 0" using a by simp
  show "(2 * x, x) \<in> measure (\<lambda>x. if x < 1 then nat \<lceil>- log 2 x\<rceil> else nat \<lfloor>log 2 x\<rfloor>)"
  proof (cases "2 * x < 1")
    case True
    then have "log 2 (2 * x) < 0" using a by simp
    then show ?thesis using a True l n by (simp add: nat_less_iff; linarith?)
  next
    case False
    then have "1 \<le> 2 * x" by simp
    then have "0 \<le> log 2 (2 * x)" using a by simp
    moreover have "log 2 (2 * x) < 1" using l n by simp
    ultimately have "\<lfloor>log 2 (2 * x)\<rfloor> = 0" by linarith
    then show ?thesis using a False n by (simp add: l; linarith?)
  qed
next
  fix x :: real
  assume a: "\<not> x \<le> 0" "\<not> x < 1" "2 \<le> x"
  have l: "log 2 (x / 2) = log 2 x - 1" using a by (simp add: log_divide)
  have "1 \<le> log 2 x" using a by (simp add: le_log_iff)
  then show "(x / 2, x) \<in> measure (\<lambda>x. if x < 1 then nat \<lceil>- log 2 x\<rceil> else nat \<lfloor>log 2 x\<rfloor>)"
    using a by (simp add: l; linarith?)
qed

declare scale_exp.simps [simp del]

definition pow2 :: "int \<Rightarrow> real" where
  "pow2 q = (if 0 \<le> q then 2 ^ nat q else 1 / 2 ^ nat (- q))"

text \<open>Rounding to the nearest integer, ties to the even one.\<close>

definition round_even :: "real \<Rightarrow> int" where
  "round_even y =
     (let f = \<lfloor>y\<rfloor>; r = y - of_int f
      in if r < 1 / 2 then f else if 1 / 2 < r then f + 1 else if even f then f else f + 1)"

text \<open>Rounding a real to binary64: a significand of 53 bits, the least exponent -1022
  (below it the spacing of the subnormal numbers), round to nearest, ties to even.\<close>

definition rnd :: "real \<Rightarrow> real" where
  "rnd x =
     (if x = 0 then 0
      else (let q = max (scale_exp \<bar>x\<bar>) (- 1022) - 52
            in of_int (round_even (x / pow2 q)) * pow2 q))"

text \<open>The result of a double operation whose exact value is \<open>x\<close>; \<open>None\<close> when it
  overflows.\<close>

definition dbl :: "real \<Rightarrow> real option" where
  "dbl x = (let r = rnd x in if \<bar>r\<bar> < 2 ^ 1024 then Some r else None)"

text \<open>The value that \<open>init\<close> gives to \<open>bias\<close>: the double literal \<open>0.298\<close>.\<close>

definition bias_init :: real where
  "bias_init = rnd (298 / 1000)"

subsection \<open>Command encoder\<close>

text \<open>\<open>(short) d\<close> for a double \<open>d\<close>: the fractional part is discarded.\<close>

definition truncate_double :: "real \<Rightarrow> int" where
  "truncate_double d = (if 0 \<le> d then \<lfloor>d\<rfloor> else \<lceil>d\<rceil>)"

definition fits_short :: "real \<Rightarrow> bool" where
  "fits_short d = (- 32768 \<le> truncate_double d \<and> truncate_double d \<le> 32767)"

definition short_of_double :: "real \<Rightarrow> 16 word option" where
  "short_of_double d = (if fits_short d then Some (word_of_int (truncate_double d)) else None)"

text \<open>The double expressions of \<open>setCommand\<close>, operation by operation:
  \<open>vx * 1000.0f / wz\<close>, \<open>bias * wz / 2.0f\<close> and
  \<open>1000.0f * std::max(vx + bias * wz / 2.0f, vx - bias * wz / 2.0f)\<close>.\<close>

definition radius_expr :: "real \<Rightarrow> real \<Rightarrow> real option" where
  "radius_expr vx wz = Option.bind (dbl (vx * 1000)) (\<lambda>p. dbl (p / wz))"

definition half_turn :: "real \<Rightarrow> real \<Rightarrow> real option" where
  "half_turn b wz = Option.bind (dbl (b * wz)) (\<lambda>t. dbl (t / 2))"

definition speed_expr :: "real \<Rightarrow> real \<Rightarrow> real \<Rightarrow> real option" where
  "speed_expr b vx wz =
     Option.bind (Option.bind (half_turn b wz) (\<lambda>h. dbl (vx + h))) (\<lambda>l.
     Option.bind (Option.bind (half_turn b wz) (\<lambda>h. dbl (vx - h))) (\<lambda>r.
     dbl (1000 * max l r)))"

definition setCommand :: "real \<Rightarrow> real \<Rightarrow> kobuki \<Rightarrow> kobuki option" where
  "setCommand vx wz s =
     (case (if wz = 0 then Some 0
            else if vx = 0 \<and> wz > 0 then Some 1
            else if vx = 0 \<and> wz < 0 then Some (- 1)
            else Option.bind (radius_expr vx wz) short_of_double) of
        None \<Rightarrow> None
      | Some r \<Rightarrow>
          (case Option.bind (speed_expr (bias s) vx wz) short_of_double of
             None \<Rightarrow> None
           | Some sp \<Rightarrow> Some (s\<lparr>radius := r, speed := sp\<rparr>)))"

text \<open>The two bytes of \<open>union_sint16\<close> on a little-endian host: \<open>byte[0]\<close> is the low
  byte of \<open>word\<close>.\<close>

definition union_byte0 :: "16 word \<Rightarrow> byte" where
  "union_byte0 w = ucast w"

definition union_byte1 :: "16 word \<Rightarrow> byte" where
  "union_byte1 w = ucast (drop_bit 8 w)"

text \<open>\<open>Kobuki::sendCommand()\<close>: the frame \<open>cmd\<close> as it is handed to \<open>serial.write\<close>. The
  checksum loop runs over \<open>i = 2, ..., 6\<close>.\<close>

definition command_frame :: "16 word \<Rightarrow> 16 word \<Rightarrow> byte list" where
  "command_frame sp r =
     (let cmd = [0xaa, 0x55, 5, 0x01, 0x00, 0x00, 0x00, 0x00, 0x00];
          cmd = cmd[4 := union_byte0 sp];
          cmd = cmd[5 := union_byte1 sp];
          cmd = cmd[6 := union_byte0 r];
          cmd = cmd[7 := union_byte1 r];
          cs = fold (\<lambda>i cs. cs XOR cmd ! i) [2..<7] (0 :: byte)
      in cmd[8 := cs])"

text \<open>The checksum in the words of the specification: the XOR of a run of bytes.\<close>

definition xor_bytes :: "byte list \<Rightarrow> byte" where
  "xor_bytes bs = fold (\<lambda>b cs. cs XOR b) bs 0"

definition sendCommand :: "kobuki \<Rightarrow> kobuki" where
  "sendCommand s = s\<lparr>serial_tx := serial_tx s @ command_frame (speed s) (radius s)\<rparr>"

text \<open>\<open>run\<close> and \<open>stop\<close> return \<open>true\<close>; only their effect on the driver is kept.\<close>

definition run :: "kobuki \<Rightarrow> kobuki" where
  "run s = s\<lparr>is_enabled := True\<rparr>"

text \<open>\<open>Kobuki::stop()\<close>; the assignment to \<open>is_running\<close> is commented out in the source.\<close>

definition stop :: "kobuki \<Rightarrow> kobuki option" where
  "stop s =
     (case setCommand 0 0 s of
        None \<Rightarrow> None
      | Some s1 \<Rightarrow> Some ((sendCommand s1)\<lparr>is_enabled := False\<rparr>))"

subsection \<open>Joint state\<close>

definition getJointState :: "kobuki \<Rightarrow> joint_state \<Rightarrow> joint_state" where
  "getJointState s js =
     (let js1 = (if name js = ''wheel_left''
                 then js\<lparr>position := last_rad_left s, velocity := last_velocity_left s\<rparr>
                 else js\<lparr>position := last_rad_right s, velocity := last_velocity_right s\<rparr>)
      in js1\<lparr>enabled := (is_connected s \<and> is_running s \<and> is_enabled s)\<rparr>)"

subsection \<open>Odometry\<close>

text \<open>The wrap-safe difference in the words of the specification: the difference
  modulo \<open>2^16\<close>, reinterpreted as a signed 16-bit integer.\<close>

definition signed_wrap16 :: "int \<Rightarrow> int" where
  "signed_wrap16 d = (let m = d mod 65536 in if m < 32768 then m else m - 65536)"

text \<open>\<open>(double)(short)((curr - last) & 0xffff)\<close>: the operands are promoted to \<open>int\<close>,
  the masked difference is converted to \<open>short\<close> (modulo \<open>2^16\<close>).\<close>

definition diff_ticks :: "16 word \<Rightarrow> 16 word \<Rightarrow> int" where
  "diff_ticks curr_tick last_tick =
     sint (word_of_int ((uint curr_tick - uint last_tick) AND 0xffff) :: 16 word)"

definition updateOdometry :: "(real \<Rightarrow> real \<Rightarrow> pose) \<Rightarrow> kobuki \<Rightarrow> odometry \<times> kobuki" where
  "updateOdometry forward s =
     (let curr_timestamp = time_stamp (kobuki_default s);
          curr_tick_left = left_encoder (kobuki_default s);
          s = (if \<not> init_l s then s\<lparr>last_tick_left := curr_tick_left, init_l := True\<rparr> else s);
          left_diff_ticks = real_of_int (diff_ticks curr_tick_left (last_tick_left s));
          s = s\<lparr>last_tick_left := curr_tick_left\<rparr>;
          s = s\<lparr>last_rad_left := last_rad_left s + tick_to_rad s * left_diff_ticks\<rparr>;
          s = s\<lparr>last_mm_left := last_mm_left s + tick_to_mm s / 1000 * left_diff_ticks\<rparr>;
          curr_tick_right = right_encoder (kobuki_default s);
          s = (if \<not> init_r s then s\<lparr>last_tick_right := curr_tick_right, init_r := True\<rparr> else s);
          right_diff_ticks = real_of_int (diff_ticks curr_tick_right (last_tick_right s));
          s = s\<lparr>last_tick_right := curr_tick_right\<rparr>;
          s = s\<lparr>last_rad_right := last_rad_right s + tick_to_rad s * right_diff_ticks\<rparr>;
          s = s\<lparr>last_mm_right := last_mm_right s + tick_to_mm s / 1000 * right_diff_ticks\<rparr>;
          pu = forward (tick_to_rad s * left_diff_ticks) (tick_to_rad s * right_diff_ticks);
          (vl, vr, s) =
            (if curr_timestamp \<noteq> last_timestamp s
             then (let s = s\<lparr>last_diff_time :=
                               real_of_int (diff_ticks curr_timestamp (last_timestamp s)) / 1000\<rparr>;
                       s = s\<lparr>last_timestamp := curr_timestamp\<rparr>;
                       s = s\<lparr>last_velocity_left := (tick_to_rad s * left_diff_ticks) / last_diff_time s\<rparr>;
                       s = s\<lparr>last_velocity_right := (tick_to_rad s * right_diff_ticks) / last_diff_time s\<rparr>
                   in (last_velocity_left s, last_velocity_right s, s))
             else (0, 0, s))
      in (\<lparr>wheel_left_position = last_rad_left s,
           wheel_left_velocity = vl,
           wheel_right_position = last_rad_right s,
           wheel_right_velocity = vr,
           pose_update = pu,
           pose_update_rates =
             (if last_diff_time s = 0 then None
              else (case pu of (x, y, h) \<Rightarrow>
                      Some (x / last_diff_time s, y / last_diff_time s, h / last_diff_time s)))\<rparr>,
          s))"

subsection \<open>Frame dispatch and observer signals (Kobuki::runnable)\<close>

text \<open>The \<open>switch\<close> on a header byte: the case label that equals the byte, if any. The
  labels are the constants of \<open>kobuki_comms::Header\<close>, given by \<open>hid\<close>; C++ requires
  them to be pairwise different.\<close>

definition all_headers :: "header list" where
  "all_headers =
     [header_default, header_ir, header_dock_ir, header_inertia, header_cliff,
      header_current, header_magnet, header_time, header_hw, header_fw,
      header_st_gyro, header_eeprom, header_gp_input]"

definition switch_header :: "(header \<Rightarrow> byte) \<Rightarrow> byte \<Rightarrow> header option" where
  "switch_header hid b = find (\<lambda>h. hid h = b) all_headers"

text \<open>\<open>sig_index\<close> is a \<open>std::set<unsigned char>\<close>: it is kept as the strictly
  ascending list of its elements, which is the order its iterator visits them in.\<close>

definition set_insert :: "byte \<Rightarrow> byte list \<Rightarrow> byte list" where
  "set_insert b xs = insort_insert b xs"

definition le16 :: "byte \<Rightarrow> byte \<Rightarrow> 16 word" where
  "le16 lo hi = ucast lo OR push_bit 8 (ucast hi)"

text \<open>Modelled from the spec: the \<open>deserialise\<close> methods of the sub-record decoders
  (\<open>kobuki_default.deserialise\<close> and its twelve siblings), which are not in the source
  at hand. A decoder consumes \<open>HDR\<close>, \<open>SUBLEN\<close> and \<open>SUBLEN\<close> bytes of data from the
  front of the buffer. The decoder of the default record, whose data are 15 bytes
  beginning \<open>timestamp(u16) bumper(u8) wheel_drop(u8) cliff(u8) left_encoder(u16)
  right_encoder(u16)\<close>, stores the three fields the driver reads; a record of another
  length is skipped. It is called on a buffer of at least two bytes only.\<close>

definition deserialise :: "header \<Rightarrow> kobuki \<Rightarrow> kobuki" where
  "deserialise h s =
     (let buf = data_buffer s;
          n = 2 + unat (buf ! 1);
          rec = take n buf
      in s\<lparr>data_buffer := drop n buf,
           kobuki_default :=
             (if h = header_default \<and> length rec = 17
              then \<lparr>time_stamp = le16 (rec ! 2) (rec ! 3),
                    left_encoder = le16 (rec ! 7) (rec ! 8),
                    right_encoder = le16 (rec ! 9) (rec ! 10)\<rparr>
              else kobuki_default s)\<rparr>)"

text \<open>The first loop of \<open>runnable\<close>: \<open>while (data_buffer.size() > 1)\<close>. A recognised
  header byte is inserted into \<open>sig_index\<close> and its record deserialised; any other
  byte clears the buffer.\<close>

function deserialise_all :: "(header \<Rightarrow> byte) \<Rightarrow> kobuki \<Rightarrow> kobuki" where
  "deserialise_all hid s =
     (if length (data_buffer s) > 1
      then (case switch_header hid (data_buffer s ! 0) of
              Some h \<Rightarrow>
                deserialise_all hid
                  (deserialise h (s\<lparr>sig_index := set_insert (data_buffer s ! 0) (sig_index s)\<rparr>))
            | None \<Rightarrow> deserialise_all hid (s\<lparr>data_buffer := []\<rparr>))
      else s)"
  by pat_completeness auto
termination
  by (relation "measure (\<lambda>(hid, s). length (data_buffer s))")
     (auto simp: deserialise_def Let_def)

declare deserialise_all.simps [simp del]

text \<open>The second \<open>switch\<close>: the signals emitted for one header id.\<close>

fun emit_header :: "header \<Rightarrow> signal list" where
  "emit_header header_default = [sig_sensor_data, sig_wheel_state]"
| "emit_header header_ir = [sig_ir]"
| "emit_header header_dock_ir = [sig_dock_ir]"
| "emit_header header_inertia = [sig_inertia]"
| "emit_header header_cliff = [sig_cliff]"
| "emit_header header_current = [sig_current]"
| "emit_header header_magnet = [sig_magnet]"
| "emit_header header_time = [sig_time]"
| "emit_header header_hw = [sig_hw]"
| "emit_header header_fw = [sig_fw]"
| "emit_header header_st_gyro = [sig_st_gyro]"
| "emit_header header_eeprom = [sig_eeprom]"
| "emit_header header_gp_input = [sig_gp_input]"

definition emit_one :: "(header \<Rightarrow> byte) \<Rightarrow> byte \<Rightarrow> kobuki \<Rightarrow> kobuki" where
  "emit_one hid b s =
     (case switch_header hid b of
        Some h \<Rightarrow> s\<lparr>emitted := emitted s @ emit_header h\<rparr>
      | None \<Rightarrow> s\<lparr>data_buffer := []\<rparr>)"

text \<open>The second loop of \<open>runnable\<close>: the iterator runs over \<open>sig_index\<close> from \<open>begin()\<close>
  to \<open>end()\<close>.\<close>

definition emit_all :: "(header \<Rightarrow> byte) \<Rightarrow> kobuki \<Rightarrow> kobuki" where
  "emit_all hid s = fold (emit_one hid) (sig_index s) s"

text \<open>The body of \<open>if (packet_finder.update(buf, n))\<close> together with the
  \<open>sendCommand()\<close> that follows it: what one iteration of \<open>runnable\<close> does with the
  buffer \<open>packet\<close> that \<open>packet_finder.getBuffer\<close> delivers (the frame from its start
  marker to its checksum byte). Reading the port and \<open>PacketFinder::update\<close> are not
  in the source at hand. The three \<open>pop_front\<close> calls are \<open>drop 3\<close>. (In simulation
  mode the loop does none of this.)\<close>

definition runnable_packet :: "(header \<Rightarrow> byte) \<Rightarrow> byte list \<Rightarrow> kobuki \<Rightarrow> kobuki" where
  "runnable_packet hid packet s =
     (let s = s\<lparr>data_buffer := drop 3 packet\<rparr>;
          s = (if protocol_version s = ''2.0''
               then deserialise_all hid (s\<lparr>sig_index := []\<rparr>) else s);
          s = (if protocol_version s = ''2.0'' then emit_all hid s else s)
      in sendCommand s)"

text \<open>The signals the second loop emits for one element of \<open>sig_index\<close>.\<close>

definition emitted_for :: "(header \<Rightarrow> byte) \<Rightarrow> byte \<Rightarrow> signal list" where
  "emitted_for hid b = (case switch_header hid b of Some h \<Rightarrow> emit_header h | None \<Rightarrow> [])"

text \<open>The invariant of \<open>sig_index\<close>: strictly ascending, and recognised ids only.\<close>

definition seen_ok :: "(header \<Rightarrow> byte) \<Rightarrow> byte list \<Rightarrow> bool" where
  "seen_ok hid bs = (sorted_wrt (<) bs \<and> list_all (\<lambda>b. switch_header hid b \<noteq> None) bs)"

subsection \<open>Frames and observer signals in the words of the specification\<close>

text \<open>A sub-record on the wire is \<open>HDR\<close>, \<open>SUBLEN\<close> and \<open>SUBLEN\<close> bytes of data; a payload
  is the concatenation of its sub-records.\<close>

definition sub_record :: "(header \<Rightarrow> byte) \<Rightarrow> header \<times> byte list \<Rightarrow> byte list" where
  "sub_record hid rc = hid (fst rc) # of_nat (length (snd rc)) # snd rc"

definition payload :: "(header \<Rightarrow> byte) \<Rightarrow> (header \<times> byte list) list \<Rightarrow> byte list" where
  "payload hid recs = concat (map (sub_record hid) recs)"

text \<open>Each header id has the observer channel of its name; after \<open>default\<close> the
  \<open>joint_state\<close> signal is emitted as well.\<close>

fun channel :: "header \<Rightarrow> signal" where
  "channel header_default = sig_sensor_data"
| "channel header_ir = sig_ir"
| "channel header_dock_ir = sig_dock_ir"
| "channel header_inertia = sig_inertia"
| "channel header_cliff = sig_cliff"
| "channel header_current = sig_current"
| "channel header_magnet = sig_magnet"
| "channel header_time = sig_time"
| "channel header_hw = sig_hw"
| "channel header_fw = sig_fw"
| "channel header_st_gyro = sig_st_gyro"
| "channel header_eeprom = sig_eeprom"
| "channel header_gp_input = sig_gp_input"

definition observer_signals :: "header \<Rightarrow> signal list" where
  "observer_signals h = (if h = header_default then [channel h, sig_wheel_state] else [channel h])"

text \<open>The SeenSet of a frame: the headers of its sub-records, each once, ascending by
  header id.\<close>

definition seen_set :: "(header \<Rightarrow> byte) \<Rightarrow> (header \<times> byte list) list \<Rightarrow> header list" where
  "seen_set hid recs = sort_key hid (remdups (map fst recs))"

subsection \<open>Concrete inputs\<close>

text \<open>A numbering of the header ids for the concrete inputs below: \<open>default\<close> is 0x01
  and \<open>dock_ir\<close> is 0x03, as the specification has them; the others are numbered in
  the order of the cases of the switch.\<close>

fun hid_seq :: "header \<Rightarrow> byte" where
  "hid_seq header_default = 1"
| "hid_seq header_ir = 2"
| "hid_seq header_dock_ir = 3"
| "hid_seq header_inertia = 4"
| "hid_seq header_cliff = 5"
| "hid_seq header_current = 6"
| "hid_seq header_magnet = 7"
| "hid_seq header_time = 8"
| "hid_seq header_hw = 9"
| "hid_seq header_fw = 10"
| "hid_seq header_st_gyro = 11"
| "hid_seq header_eeprom = 12"
| "hid_seq header_gp_input = 13"

text \<open>A driver after \<open>init\<close> (\<open>bias\<close> the double \<open>0.298\<close>, running), with both
  encoders initialised, the left encoder last seen at 65530 and now read at 5.\<close>

definition example_state :: kobuki where
  "example_state =
     \<lparr>protocol_version = ''2.0'', is_connected = True, is_running = True, is_enabled = True,
      bias = bias_init, tick_to_rad = 1 / 500, tick_to_mm = 1 / 10,
      init_l = True, init_r = True,
      last_tick_left = 65530, last_tick_right = 100,
      last_rad_left = 0, last_rad_right = 0, last_mm_left = 0, last_mm_right = 0,
      last_timestamp = 1000, last_diff_time = 1 / 50,
      last_velocity_left = 3, last_velocity_right = 4,
      speed = 0, radius = 0,
      kobuki_default = \<lparr>time_stamp = 1000, left_encoder = 5, right_encoder = 90\<rparr>,
      data_buffer = [], sig_index = [], serial_tx = [], emitted = []\<rparr>"

text \<open>A forward kinematics for the concrete inputs (the one of the driver is in the ecl
  library): distance and heading change of a base with wheel radius 0.042 and
  wheelbase 0.298.\<close>

definition example_forward :: "real \<Rightarrow> real \<Rightarrow> pose" where
  "example_forward dl dr = (42 / 1000 * (dl + dr) / 2, 0, 42 / 1000 * (dr - dl) / (298 / 1000))"

text \<open>The same driver when the device timestamp has advanced by 20 ms.\<close>

definition example_state_later :: kobuki where
  "example_state_later =
     example_state\<lparr>kobuki_default := \<lparr>time_stamp = 1020, left_encoder = 5, right_encoder = 90\<rparr>\<rparr>"

text \<open>A frame whose payload is a default record (15 data bytes) followed by a record
  with the unknown header id 0xff, and a frame whose payload is a default record
  followed by a dock\_ir record (the records \<open>records_two\<close>); each ends with its
  checksum byte.\<close>

definition packet_unknown :: "byte list" where
  "packet_unknown =
     [0xaa, 0x55, 20,
      0x01, 15, 0xfc, 0x03, 0, 0, 0, 5, 0, 90, 0, 0, 0, 0, 0, 160, 0,
      0xff, 1, 7,
      0xe3]"

definition records_two :: "(header \<times> byte list) list" where
  "records_two =
     [(header_default, [0xfc, 0x03, 0, 0, 0, 5, 0, 90, 0, 0, 0, 0, 0, 160, 0]),
      (header_dock_ir, [1, 2, 4])]"

definition packet_two :: "byte list" where
  "packet_two =
     [0xaa, 0x55, 22,
      0x01, 15, 0xfc, 0x03, 0, 0, 0, 5, 0, 90, 0, 0, 0, 0, 0, 160, 0,
      0x03, 3, 1, 2, 4,
      0x1f]"

section \<open>Properties\<close>

subsection \<open>Wrap-safe differences\<close>

lemma and_0xffff_mod: "(x::int) AND 65535 = x mod 65536"
  using take_bit_eq_mask [of 16 x] by (simp add: mask_eq_exp_minus_1 take_bit_eq_mod)

lemma word_of_int_mod_65536: "(word_of_int (x mod 65536) :: 16 word) = word_of_int x"
  by (simp add: word_of_int_eq_iff take_bit_eq_mod)

lemma diff_ticks_sint: "diff_ticks c l = sint (c - l)"
  by (simp add: diff_ticks_def and_0xffff_mod word_of_int_mod_65536)

lemma sint_signed_wrap16: "sint (w :: 16 word) = signed_wrap16 (uint w)"
proof -
  have b: "0 \<le> uint w" "uint w < 65536"
    using uint_bounded [of w] by simp_all
  have "sint w = take_bit 16 (uint w + 32768) - 32768"
    by (simp add: sint_uint signed_take_bit_eq_take_bit_shift)
  also have "\<dots> = (uint w + 32768) mod 65536 - 32768"
    by (simp add: take_bit_eq_mod)
  also have "\<dots> = signed_wrap16 (uint w)"
  proof (cases "uint w < 32768")
    case True
    then show ?thesis using b by (simp add: signed_wrap16_def)
  next
    case False
    then have "(uint w + 32768) mod 65536 = uint w - 32768"
      using b by (simp add: mod_pos_geq)
    then show ?thesis using b False by (simp add: signed_wrap16_def)
  qed
  finally show ?thesis .
qed

lemma diff_ticks_signed_wrap16: "diff_ticks c l = signed_wrap16 (uint c - uint l)"
proof -
  have "diff_ticks c l = signed_wrap16 (uint (c - l))"
    by (simp add: diff_ticks_sint sint_signed_wrap16)
  also have "uint (c - l) = (uint c - uint l) mod 65536"
    by (simp add: uint_word_ariths)
  also have "signed_wrap16 ((uint c - uint l) mod 65536) = signed_wrap16 (uint c - uint l)"
    by (simp add: signed_wrap16_def)
  finally show ?thesis .
qed

lemma diff_ticks_self: "diff_ticks c c = 0"
  by (simp add: diff_ticks_sint)

lemma diff_ticks_nonzero: "c \<noteq> l \<Longrightarrow> diff_ticks c l \<noteq> 0"
  by (simp add: diff_ticks_sint signed_eq_0_iff)

subsection \<open>Odometry\<close>

lemma updateOdometry_left:
  "last_rad_left (snd (updateOdometry forward s)) =
     last_rad_left s + tick_to_rad s *
       real_of_int (diff_ticks (left_encoder (kobuki_default s))
          (if init_l s then last_tick_left s else left_encoder (kobuki_default s)))"
  by (simp add: updateOdometry_def Let_def split_def)

lemma updateOdometry_right:
  "last_rad_right (snd (updateOdometry forward s)) =
     last_rad_right s + tick_to_rad s *
       real_of_int (diff_ticks (right_encoder (kobuki_default s))
          (if init_r s then last_tick_right s else right_encoder (kobuki_default s)))"
  by (simp add: updateOdometry_def Let_def split_def)

lemma updateOdometry_ticks:
  "last_tick_left (snd (updateOdometry forward s)) = left_encoder (kobuki_default s) \<and>
   last_tick_right (snd (updateOdometry forward s)) = right_encoder (kobuki_default s) \<and>
   init_l (snd (updateOdometry forward s)) \<and> init_r (snd (updateOdometry forward s))"
  by (simp add: updateOdometry_def Let_def split_def)

lemma updateOdometry_positions:
  "wheel_left_position (fst (updateOdometry forward s)) = last_rad_left (snd (updateOdometry forward s)) \<and>
   wheel_right_position (fst (updateOdometry forward s)) = last_rad_right (snd (updateOdometry forward s))"
  by (simp add: updateOdometry_def Let_def split_def)

lemma updateOdometry_same_time:
  "time_stamp (kobuki_default s) = last_timestamp s \<Longrightarrow>
   wheel_left_velocity (fst (updateOdometry forward s)) = 0 \<and>
   wheel_right_velocity (fst (updateOdometry forward s)) = 0"
  by (simp add: updateOdometry_def Let_def split_def)

lemma updateOdometry_new_time:
  "time_stamp (kobuki_default s) \<noteq> last_timestamp s \<Longrightarrow>
   last_diff_time (snd (updateOdometry forward s)) =
     real_of_int (diff_ticks (time_stamp (kobuki_default s)) (last_timestamp s)) / 1000 \<and>
   last_timestamp (snd (updateOdometry forward s)) = time_stamp (kobuki_default s) \<and>
   wheel_left_velocity (fst (updateOdometry forward s)) =
     tick_to_rad s * real_of_int (diff_ticks (left_encoder (kobuki_default s))
          (if init_l s then last_tick_left s else left_encoder (kobuki_default s))) /
     last_diff_time (snd (updateOdometry forward s)) \<and>
   wheel_right_velocity (fst (updateOdometry forward s)) =
     tick_to_rad s * real_of_int (diff_ticks (right_encoder (kobuki_default s))
          (if init_r s then last_tick_right s else right_encoder (kobuki_default s))) /
     last_diff_time (snd (updateOdometry forward s))"
  by (simp add: updateOdometry_def Let_def split_def)


text \<open>Claim C4. For two successive 16-bit encoder samples \<open>p\<close> (previous) and \<open>c\<close>
  (current), the tick delta that \<open>updateOdometry\<close> computes is \<open>(c - p) mod 2^16\<close> read
  as a signed 16-bit integer, and once the wheel's first sample has been taken the
  accumulated angle grows by \<open>tick_to_rad\<close> times that delta. The witness is the
  encoder wrap from 65530 to 5, whose delta is 11.\<close>

theorem tick_delta_signed_wrap16:
  "diff_ticks c p = signed_wrap16 (uint c - uint p) \<and>
   (init_l s \<and> last_tick_left s = p \<and> left_encoder (kobuki_default s) = c \<longrightarrow>
      last_rad_left (snd (updateOdometry forward s)) =
        last_rad_left s + tick_to_rad s * real_of_int (signed_wrap16 (uint c - uint p))) \<and>
   (init_r s \<and> last_tick_right s = p \<and> right_encoder (kobuki_default s) = c \<longrightarrow>
      last_rad_right (snd (updateOdometry forward s)) =
        last_rad_right s + tick_to_rad s * real_of_int (signed_wrap16 (uint c - uint p)))"
  by (simp add: updateOdometry_left updateOdometry_right diff_ticks_signed_wrap16)

theorem tick_delta_signed_wrap16_witness:
  "diff_ticks 5 65530 = 11 \<and>
   init_l example_state \<and> last_tick_left example_state = 65530 \<and>
   left_encoder (kobuki_default example_state) = 5 \<and>
   last_rad_left (snd (updateOdometry example_forward example_state)) =
     last_rad_left example_state + tick_to_rad example_state * 11 \<and>
   init_r example_state \<and> last_tick_right example_state = 100 \<and>
   right_encoder (kobuki_default example_state) = 90 \<and>
   last_rad_right (snd (updateOdometry example_forward example_state)) =
     last_rad_right example_state + tick_to_rad example_state * (- 10)"
  using tick_delta_signed_wrap16 [of 5 65530 example_state example_forward]
        tick_delta_signed_wrap16 [of 90 100 example_state example_forward]
  by (simp add: example_state_def signed_wrap16_def)

text \<open>Claim C6. When the device timestamp equals the previous one, \<open>updateOdometry\<close>
  reports 0 for both wheel velocities; when it differs, \<open>dt\<close> is the wrap-safe signed
  difference of the timestamps divided by 1000, it is not 0, and the reported velocity
  is \<open>tick_to_rad * delta_ticks / dt\<close>. In both cases the accumulated wheel positions
  are advanced by the tick deltas and reported. (On a wheel's first sample the
  previous tick is the current one.)\<close>

theorem odometry_velocity:
  "(time_stamp (kobuki_default s) = last_timestamp s \<longrightarrow>
      wheel_left_velocity (fst (updateOdometry forward s)) = 0 \<and>
      wheel_right_velocity (fst (updateOdometry forward s)) = 0) \<and>
   (time_stamp (kobuki_default s) \<noteq> last_timestamp s \<longrightarrow>
      signed_wrap16 (uint (time_stamp (kobuki_default s)) - uint (last_timestamp s)) \<noteq> 0 \<and>
      last_diff_time (snd (updateOdometry forward s)) =
        real_of_int (signed_wrap16 (uint (time_stamp (kobuki_default s)) - uint (last_timestamp s))) / 1000 \<and>
      wheel_left_velocity (fst (updateOdometry forward s)) =
        tick_to_rad s *
          real_of_int (signed_wrap16 (uint (left_encoder (kobuki_default s)) -
             uint (if init_l s then last_tick_left s else left_encoder (kobuki_default s)))) /
          (real_of_int (signed_wrap16 (uint (time_stamp (kobuki_default s)) - uint (last_timestamp s))) / 1000) \<and>
      wheel_right_velocity (fst (updateOdometry forward s)) =
        tick_to_rad s *
          real_of_int (signed_wrap16 (uint (right_encoder (kobuki_default s)) -
             uint (if init_r s then last_tick_right s else right_encoder (kobuki_default s)))) /
          (real_of_int (signed_wrap16 (uint (time_stamp (kobuki_default s)) - uint (last_timestamp s))) / 1000)) \<and>
   wheel_left_position (fst (updateOdometry forward s)) =
     last_rad_left s + tick_to_rad s *
       real_of_int (signed_wrap16 (uint (left_encoder (kobuki_default s)) -
          uint (if init_l s then last_tick_left s else left_encoder (kobuki_default s)))) \<and>
   wheel_right_position (fst (updateOdometry forward s)) =
     last_rad_right s + tick_to_rad s *
       real_of_int (signed_wrap16 (uint (right_encoder (kobuki_default s)) -
          uint (if init_r s then last_tick_right s else right_encoder (kobuki_default s)))) \<and>
   last_rad_left (snd (updateOdometry forward s)) = wheel_left_position (fst (updateOdometry forward s)) \<and>
   last_rad_right (snd (updateOdometry forward s)) = wheel_right_position (fst (updateOdometry forward s))"
proof -
  define out where "out = fst (updateOdometry forward s)"
  define s' where "s' = snd (updateOdometry forward s)"
  define ts where "ts = time_stamp (kobuki_default s)"
  define dl where "dl = diff_ticks (left_encoder (kobuki_default s))
     (if init_l s then last_tick_left s else left_encoder (kobuki_default s))"
  define dr where "dr = diff_ticks (right_encoder (kobuki_default s))
     (if init_r s then last_tick_right s else right_encoder (kobuki_default s))"
  define dt where "dt = diff_ticks ts (last_timestamp s)"
  have same: "ts = last_timestamp s \<longrightarrow> wheel_left_velocity out = 0 \<and> wheel_right_velocity out = 0"
    using updateOdometry_same_time [of s forward] by (simp add: out_def ts_def)
  have new: "ts \<noteq> last_timestamp s \<longrightarrow>
      dt \<noteq> 0 \<and> last_diff_time s' = real_of_int dt / 1000 \<and>
      wheel_left_velocity out = tick_to_rad s * real_of_int dl / (real_of_int dt / 1000) \<and>
      wheel_right_velocity out = tick_to_rad s * real_of_int dr / (real_of_int dt / 1000)"
  proof
    assume ne: "ts \<noteq> last_timestamp s"
    then have ne': "time_stamp (kobuki_default s) \<noteq> last_timestamp s" by (simp add: ts_def)
    have nz: "dt \<noteq> 0" unfolding dt_def by (rule diff_ticks_nonzero [OF ne])
    have t: "last_diff_time s' = real_of_int dt / 1000"
      using updateOdometry_new_time [OF ne', of forward] by (simp add: s'_def dt_def ts_def)
    have vl: "wheel_left_velocity out = tick_to_rad s * real_of_int dl / last_diff_time s'"
      using updateOdometry_new_time [OF ne', of forward] by (simp add: s'_def out_def dl_def)
    have vr: "wheel_right_velocity out = tick_to_rad s * real_of_int dr / last_diff_time s'"
      using updateOdometry_new_time [OF ne', of forward] by (simp add: s'_def out_def dr_def)
    show "dt \<noteq> 0 \<and> last_diff_time s' = real_of_int dt / 1000 \<and>
      wheel_left_velocity out = tick_to_rad s * real_of_int dl / (real_of_int dt / 1000) \<and>
      wheel_right_velocity out = tick_to_rad s * real_of_int dr / (real_of_int dt / 1000)"
      using nz t vl vr by (simp only: simp_thms)
  qed
  have pos: "wheel_left_position out = last_rad_left s + tick_to_rad s * real_of_int dl"
    "wheel_right_position out = last_rad_right s + tick_to_rad s * real_of_int dr"
    "last_rad_left s' = wheel_left_position out"
    "last_rad_right s' = wheel_right_position out"
    using updateOdometry_positions [of forward s] updateOdometry_left [of forward s]
      updateOdometry_right [of forward s]
    by (simp_all add: out_def s'_def dl_def dr_def)
  show ?thesis
    using same new pos
    unfolding out_def s'_def ts_def dl_def dr_def dt_def diff_ticks_signed_wrap16
    by blast
qed

theorem odometry_velocity_witness:
  "time_stamp (kobuki_default example_state) = last_timestamp example_state \<and>
   wheel_left_velocity (fst (updateOdometry example_forward example_state)) = 0 \<and>
   wheel_right_velocity (fst (updateOdometry example_forward example_state)) = 0 \<and>
   wheel_left_position (fst (updateOdometry example_forward example_state)) = 11 / 500 \<and>
   wheel_right_position (fst (updateOdometry example_forward example_state)) = - (1 / 50) \<and>
   time_stamp (kobuki_default example_state_later) \<noteq> last_timestamp example_state_later \<and>
   last_diff_time (snd (updateOdometry example_forward example_state_later)) = 1 / 50 \<and>
   wheel_left_velocity (fst (updateOdometry example_forward example_state_later)) = 11 / 10 \<and>
   wheel_right_velocity (fst (updateOdometry example_forward example_state_later)) = - 1 \<and>
   wheel_left_position (fst (updateOdometry example_forward example_state_later)) = 11 / 500"
  using odometry_velocity [of example_state example_forward]
        odometry_velocity [of example_state_later example_forward]
  by (simp add: example_state_def example_state_later_def signed_wrap16_def)

subsection \<open>Joint state\<close>

text \<open>Claim C10. \<open>getJointState\<close> returns the right wheel's accumulated position and
  velocity for every name other than \<open>wheel_left\<close>, and the left wheel's only for the
  name \<open>wheel_left\<close>.\<close>

theorem getJointState_selects_wheel:
  "(name js \<noteq> ''wheel_left'' \<longrightarrow>
      position (getJointState s js) = last_rad_right s \<and>
      velocity (getJointState s js) = last_velocity_right s) \<and>
   (name js = ''wheel_left'' \<longrightarrow>
      position (getJointState s js) = last_rad_left s \<and>
      velocity (getJointState s js) = last_velocity_left s) \<and>
   name (getJointState s js) = name js \<and>
   enabled (getJointState s js) = (is_connected s \<and> is_running s \<and> is_enabled s)"
  by (simp add: getJointState_def)

theorem getJointState_selects_wheel_witness:
  "name \<lparr>name = ''left_wheel'', position = 0, velocity = 0, enabled = False\<rparr> \<noteq> ''wheel_left'' \<and>
   position (getJointState example_state
      \<lparr>name = ''left_wheel'', position = 0, velocity = 0, enabled = False\<rparr>) = 0 \<and>
   velocity (getJointState example_state
      \<lparr>name = ''left_wheel'', position = 0, velocity = 0, enabled = False\<rparr>) = 4 \<and>
   name \<lparr>name = ''wheel_left'', position = 0, velocity = 0, enabled = False\<rparr> = ''wheel_left'' \<and>
   velocity (getJointState example_state
      \<lparr>name = ''wheel_left'', position = 0, velocity = 0, enabled = False\<rparr>) = 3"
  using getJointState_selects_wheel
          [of "\<lparr>name = ''left_wheel'', position = 0, velocity = 0, enabled = False\<rparr>" example_state]
        getJointState_selects_wheel
          [of "\<lparr>name = ''wheel_left'', position = 0, velocity = 0, enabled = False\<rparr>" example_state]
  by (simp add: example_state_def)

subsection \<open>Double arithmetic\<close>

text \<open>\<open>scale_exp\<close> is the binary exponent, and \<open>rnd\<close> is within half a unit in the last
  place of its argument.\<close>

lemma pow2_pos: "0 < pow2 q"
  by (simp add: pow2_def)

lemma pow2_succ: "pow2 (q + 1) = 2 * pow2 q"
proof -
  have "pow2 q = 2 powi q" for q
    by (simp add: pow2_def power_int_def field_simps)
  then show ?thesis by (simp add: power_int_add)
qed

lemma pow2_pred: "pow2 (q - 1) = pow2 q / 2"
  using pow2_succ [of "q - 1"] by simp

lemma scale_exp_bounds:
  "0 < x \<Longrightarrow> pow2 (scale_exp x) \<le> x \<and> x < 2 * pow2 (scale_exp x)"
proof (induction x rule: scale_exp.induct)
  case (1 x)
  show ?case
  proof (cases "x < 1")
    case True
    then have e: "scale_exp x = scale_exp (2 * x) - 1"
      using "1.prems" by (subst scale_exp.simps) simp
    have "pow2 (scale_exp (2 * x)) \<le> 2 * x \<and> 2 * x < 2 * pow2 (scale_exp (2 * x))"
      using "1.IH"(1) "1.prems" True by simp
    then show ?thesis by (simp add: e pow2_pred)
  next
    case False
    show ?thesis
    proof (cases "2 \<le> x")
      case True
      then have e: "scale_exp x = scale_exp (x / 2) + 1"
        using "1.prems" False by (subst scale_exp.simps) simp
      have "pow2 (scale_exp (x / 2)) \<le> x / 2 \<and> x / 2 < 2 * pow2 (scale_exp (x / 2))"
        using "1.IH"(2) "1.prems" False True by simp
      then show ?thesis by (simp add: e pow2_succ)
    next
      case F2: False
      then have e: "scale_exp x = 0"
        using "1.prems" False by (subst scale_exp.simps) simp
      show ?thesis using False F2 by (simp add: e pow2_def)
    qed
  qed
qed

lemma round_even_near: "\<bar>of_int (round_even y) - y\<bar> \<le> 1 / 2"
  unfolding round_even_def Let_def by (auto; linarith)

lemma rnd_near:
  "x \<noteq> 0 \<Longrightarrow> \<bar>rnd x - x\<bar> \<le> pow2 (max (scale_exp \<bar>x\<bar>) (- 1022) - 52) / 2"
proof -
  assume "x \<noteq> 0"
  define q where "q = max (scale_exp \<bar>x\<bar>) (- 1022) - 52"
  have p: "0 < pow2 q" by (rule pow2_pos)
  have "rnd x - x = (of_int (round_even (x / pow2 q)) - x / pow2 q) * pow2 q"
    using \<open>x \<noteq> 0\<close> p by (simp add: rnd_def q_def Let_def field_simps)
  then have "\<bar>rnd x - x\<bar> = \<bar>of_int (round_even (x / pow2 q)) - x / pow2 q\<bar> * pow2 q"
    using p by (simp add: abs_mult)
  also have "\<dots> \<le> 1 / 2 * pow2 q"
    using round_even_near [of "x / pow2 q"] p by (simp only: mult_le_cancel_right_pos)
  finally show ?thesis by (simp add: q_def)
qed

lemma dbl_0: "dbl 0 = Some 0"
  by (simp add: dbl_def rnd_def)

lemmas dbl_eval = dbl_def rnd_def scale_exp.simps pow2_def round_even_def Let_def

lemma bias_init_value: "bias_init = 5368290755825631 / 18014398509481984"
  by (simp add: bias_init_def dbl_eval)

lemma double_0_3: "rnd (3 / 10) = 5404319552844595 / 18014398509481984"
  by (simp add: dbl_eval)

lemma double_0_1: "rnd (1 / 10) = 3602879701896397 / 36028797018963968"
  by (simp add: dbl_eval)

lemma double_0_0001: "rnd (1 / 10000) = 7378697629483821 / 73786976294838206464"
  by (simp add: dbl_eval)

subsection \<open>Command encoder\<close>

lemma sint_short_of_double:
  "fits_short d \<Longrightarrow> map_option sint (short_of_double d) = Some (truncate_double d)"
  by (simp add: short_of_double_def fits_short_def sint_sbintrunc' signed_take_bit_int_eq_self)

lemma bind_weak_cong: "x = y \<Longrightarrow> Option.bind x f = Option.bind y f"
  by simp

lemma speed_expr_0_0: "speed_expr b 0 0 = Some 0"
  by (simp add: speed_expr_def half_turn_def dbl_0)

lemma short_of_double_0: "short_of_double 0 = Some 0"
  by (simp add: short_of_double_def fits_short_def truncate_double_def)

lemma speed_expr_spin:
  "speed_expr bias_init 0 (1 / 2) = Some (149 / 2)"
  "speed_expr bias_init 0 (- (1 / 2)) = Some (149 / 2)"
  unfolding bias_init_value
  by (simp_all add: speed_expr_def half_turn_def dbl_eval cong: bind_weak_cong)

lemma short_of_double_spin: "short_of_double (149 / 2) = Some 74"
  by (simp add: short_of_double_def fits_short_def truncate_double_def)

lemma setCommand_spin:
  assumes b: "bias s = bias_init"
  shows "setCommand 0 (1 / 2) s = Some (s\<lparr>radius := 1, speed := 74\<rparr>)"
  unfolding setCommand_def b by (simp add: speed_expr_spin short_of_double_spin)

lemma minus_one_word16: "(- 1 :: 16 word) = 65535"
  by simp

lemma setCommand_spin_negative:
  assumes b: "bias s = bias_init"
  shows "setCommand 0 (- (1 / 2)) s = Some (s\<lparr>radius := 65535, speed := 74\<rparr>)"
  unfolding setCommand_def b by (simp add: speed_expr_spin short_of_double_spin minus_one_word16)

lemma command_frame_bytes:
  "command_frame sp r =
     [0xaa, 0x55, 5, 1, union_byte0 sp, union_byte1 sp, union_byte0 r, union_byte1 r,
      5 XOR 1 XOR union_byte0 sp XOR union_byte1 sp XOR union_byte0 r]"
  by (simp add: command_frame_def Let_def xor.assoc)

lemma checkSum_command_frame: "checkSum (command_frame sp r) = (union_byte1 r = 0)"
  by (simp add: checkSum_def command_frame_bytes xor.commute xor.left_commute)

lemma stop_result:
  "stop s = Some (s\<lparr>radius := 0, speed := 0,
                   serial_tx := serial_tx s @ [0xaa, 0x55, 5, 1, 0, 0, 0, 0, 4],
                   is_enabled := False\<rparr>)"
  by (simp add: stop_def setCommand_def speed_expr_0_0 short_of_double_0
        sendCommand_def command_frame_def union_byte0_def union_byte1_def)

lemma bias_example_state: "bias example_state = bias_init"
  by (simp add: example_state_def)

text \<open>Claim C8 says that \<open>stop\<close> sets \<open>is_running\<close> to false. The assignment is commented
  out: a running driver is still running after \<open>stop\<close>.\<close>

theorem stop_keeps_running_counterexample:
  "map_option is_running (stop example_state) = Some True"
  by (simp add: stop_result example_state_def)

text \<open>Claim C8, amended. \<open>stop\<close> always succeeds; it sets \<open>speed\<close> and \<open>radius\<close> to 0,
  writes one zero-motion frame to the serial port, sets \<open>is_enabled\<close> to false and
  leaves \<open>is_running\<close> as it was. A second \<open>stop\<close> leaves every field of the driver as
  the first one left it and writes one more zero-motion frame.\<close>

theorem stop_effect:
  "stop s = Some (s\<lparr>radius := 0, speed := 0,
                   serial_tx := serial_tx s @ command_frame 0 0,
                   is_enabled := False\<rparr>) \<and>
   command_frame 0 0 = [0xaa, 0x55, 5, 1, 0, 0, 0, 0, 4] \<and>
   map_option is_running (stop s) = Some (is_running s) \<and>
   Option.bind (stop s) stop =
     Some (s\<lparr>radius := 0, speed := 0,
             serial_tx := serial_tx s @ command_frame 0 0 @ command_frame 0 0,
             is_enabled := False\<rparr>)"
  by (simp add: stop_result command_frame_bytes union_byte0_def union_byte1_def)

lemma setCommand_example_512:
  "setCommand (1 / 512) 1 example_state = Some (example_state\<lparr>radius := 1, speed := 150\<rparr>)"
proof -
  have r: "radius_expr (1 / 512) 1 = Some (125 / 64)"
    by (simp add: radius_expr_def dbl_eval cong: bind_weak_cong)
  have s: "speed_expr bias_init (1 / 512) 1 = Some (9661 / 64)"
    unfolding bias_init_value
    by (simp add: speed_expr_def half_turn_def dbl_eval cong: bind_weak_cong)
  have c: "short_of_double (125 / 64) = Some 1" "short_of_double (9661 / 64) = Some 150"
    by (simp_all add: short_of_double_def fits_short_def truncate_double_def)
  show ?thesis
    unfolding setCommand_def bias_example_state by (simp add: r s c)
qed

text \<open>Claim C3 says that the general case of \<open>setCommand\<close> rounds \<open>vx * 1000 / wz\<close>. For
  \<open>vx = 1/512\<close> (a double) and \<open>wz = 1\<close> the quotient is 1.953125, which rounds to 2; the
  conversion to \<open>short\<close> gives 1.\<close>

theorem setCommand_radius_round_counterexample:
  "setCommand (1 / 512) 1 example_state = Some (example_state\<lparr>radius := 1, speed := 150\<rparr>) \<and>
   round (1 / 512 * 1000 / 1 :: real) = 2"
  by (simp add: setCommand_example_512 round_def)

text \<open>Claim C3, amended. Whenever the conversions to \<open>short\<close> are defined, \<open>setCommand\<close>
  sets \<open>radius\<close> to 0 if \<open>wz = 0\<close>, else to 1 if \<open>vx = 0\<close> and \<open>wz > 0\<close>, else to -1 if
  \<open>vx = 0\<close> and \<open>wz < 0\<close>, and otherwise to the double quotient truncated towards zero:
  \<open>p\<close> is the product \<open>vx * 1000\<close> rounded to a double, \<open>q\<close> is \<open>p / wz\<close> rounded to a
  double, and \<open>radius\<close> is \<open>q\<close> without its fractional part. The witness has the
  doubles 0.3 and 0.1, where \<open>radius\<close> is 3000, and 0.0001 and 0.1, where it is 1.\<close>

theorem setCommand_radius:
  assumes "Option.bind (speed_expr (bias s) vx wz) short_of_double \<noteq> None"
    and "vx \<noteq> 0 \<and> wz \<noteq> 0 \<longrightarrow>
           dbl (vx * 1000) = Some p \<and> dbl (p / wz) = Some q \<and> fits_short q"
  shows "map_option (\<lambda>s. sint (radius s)) (setCommand vx wz s) =
           Some (if wz = 0 then 0
                 else if vx = 0 \<and> wz > 0 then 1
                 else if vx = 0 \<and> wz < 0 then - 1
                 else truncate_double q)"
proof -
  obtain sp where sp: "Option.bind (speed_expr (bias s) vx wz) short_of_double = Some sp"
    using assms(1) by auto
  show ?thesis
  proof (cases "vx \<noteq> 0 \<and> wz \<noteq> 0")
    case True
    then have pq: "dbl (vx * 1000) = Some p" "dbl (p / wz) = Some q" and f: "fits_short q"
      using assms(2) by simp_all
    obtain r where r: "short_of_double q = Some r" "sint r = truncate_double q"
      using sint_short_of_double [OF f] by (auto simp: short_of_double_def f)
    show ?thesis using True sp r pq by (simp add: setCommand_def radius_expr_def)
  next
    case False
    then show ?thesis using sp by (auto simp: setCommand_def)
  qed
qed


lemma fits_short_eval:
  "fits_short 3000" "fits_short 1" "fits_short (125 / 64)" "fits_short (149 / 2)"
  "fits_short 149" "fits_short (3377699720527871 / 140737488355328)"
  by (simp_all add: fits_short_def truncate_double_def)

lemma speed_defined_examples:
  "Option.bind (speed_expr bias_init (rnd (3 / 10)) (rnd (1 / 10))) short_of_double = Some 314"
  "Option.bind (speed_expr bias_init (rnd (1 / 10000)) (rnd (1 / 10))) short_of_double = Some 15"
  "Option.bind (speed_expr bias_init 0 (- (1 / 2))) short_of_double = Some 74"
  "Option.bind (speed_expr bias_init (1 / 2) 0) short_of_double = Some 500"
  unfolding bias_init_value double_0_3 double_0_1 double_0_0001
  by (simp_all add: speed_expr_def half_turn_def dbl_eval short_of_double_def fits_short_def
        truncate_double_def cong: bind_weak_cong)

lemma radius_steps_examples:
  "dbl (rnd (3 / 10) * 1000) = Some 300" "dbl (300 / rnd (1 / 10)) = Some 3000"
  "dbl (rnd (1 / 10000) * 1000) = Some (rnd (1 / 10))" "dbl (rnd (1 / 10) / rnd (1 / 10)) = Some 1"
  unfolding double_0_3 double_0_1 double_0_0001
  by (simp_all add: dbl_eval)

lemma doubles_nonzero: "rnd (3 / 10) \<noteq> 0" "rnd (1 / 10) \<noteq> 0" "rnd (1 / 10000) \<noteq> 0"
  "0 < rnd (1 / 10)"
  unfolding double_0_3 double_0_1 double_0_0001 by simp_all

theorem setCommand_radius_witness:
  "Option.bind (speed_expr (bias example_state) (rnd (3 / 10)) (rnd (1 / 10))) short_of_double \<noteq> None \<and>
   dbl (rnd (3 / 10) * 1000) = Some 300 \<and> dbl (300 / rnd (1 / 10)) = Some 3000 \<and>
   fits_short 3000 \<and>
   map_option (\<lambda>s. sint (radius s)) (setCommand (rnd (3 / 10)) (rnd (1 / 10)) example_state) = Some 3000 \<and>
   map_option (\<lambda>s. sint (radius s)) (setCommand (rnd (1 / 10000)) (rnd (1 / 10)) example_state) = Some 1 \<and>
   map_option (\<lambda>s. sint (radius s)) (setCommand 0 (- (1 / 2)) example_state) = Some (- 1) \<and>
   map_option (\<lambda>s. sint (radius s)) (setCommand (1 / 2) 0 example_state) = Some 0"
  using setCommand_radius [of example_state "rnd (3 / 10)" "rnd (1 / 10)" 300 3000]
        setCommand_radius [of example_state "rnd (1 / 10000)" "rnd (1 / 10)" "rnd (1 / 10)" 1]
        setCommand_radius [of example_state 0 "- (1 / 2)" 0 0]
        setCommand_radius [of example_state "1 / 2" 0 0 0]
        speed_defined_examples radius_steps_examples fits_short_eval doubles_nonzero
  by (simp add: bias_example_state truncate_double_def)

text \<open>Claim C2 says that \<open>setCommand(0.0, 0.5)\<close> gives \<open>speed = 75\<close> and frame bytes 4-5
  \<open>0x4B 0x00\<close>. With \<open>bias\<close> the double 0.298 the product is the double 74.5, the
  conversion to \<open>short\<close> gives 74, and bytes 4-5 of the frame are \<open>0x4A 0x00\<close>.\<close>

theorem setCommand_spin_speed_counterexample:
  "setCommand 0 (1 / 2) example_state = Some (example_state\<lparr>radius := 1, speed := 74\<rparr>) \<and>
   sint (74 :: 16 word) = 74 \<and>
   take 2 (drop 4 (command_frame 74 1)) = [0x4a, 0x00]"
  by (simp add: setCommand_spin bias_example_state command_frame_bytes union_byte0_def union_byte1_def)

text \<open>Claim C2, amended. With \<open>bias\<close> the double 0.298, \<open>setCommand(0.0, 0.5)\<close> gives
  \<open>radius = 1\<close> and \<open>speed = 74\<close>; \<open>sendCommand\<close> then writes the frame
  \<open>AA 55 05 01 4A 00 01 00 4F\<close>, whose last byte is the XOR of its bytes 2 to 7. In
  general \<open>speed\<close> is the double value of
  \<open>1000 * max (vx + bias * wz / 2) (vx - bias * wz / 2)\<close> truncated towards zero, each
  of its operations rounded to a double: \<open>t\<close> is \<open>bias * wz\<close>, \<open>h\<close> is \<open>t / 2\<close>, \<open>l\<close> is
  \<open>vx + h\<close>, \<open>r\<close> is \<open>vx - h\<close> and \<open>d\<close> is \<open>1000 * max l r\<close>; this whenever the
  conversions to \<open>short\<close> are defined. The witness has \<open>(-0.125, -1.0)\<close>, where \<open>d\<close> is
  just below 24 and \<open>speed\<close> is 23, and \<open>(0.0, 1.0)\<close>, where \<open>speed\<close> is 149.\<close>

theorem setCommand_spin_and_speed:
  "(bias s = bias_init \<longrightarrow>
      setCommand 0 (1 / 2) s = Some (s\<lparr>radius := 1, speed := 74\<rparr>) \<and>
      serial_tx (sendCommand (s\<lparr>radius := 1, speed := 74\<rparr>)) =
        serial_tx s @ [0xaa, 0x55, 0x05, 0x01, 0x4a, 0x00, 0x01, 0x00, 0x4f] \<and>
      xor_bytes (take 6 (drop 2 [0xaa, 0x55, 0x05, 0x01, 0x4a, 0x00, 0x01, 0x00, 0x4f])) = 0x4f) \<and>
   (dbl (bias s * wz) = Some t \<and> dbl (t / 2) = Some h \<and>
    dbl (vx + h) = Some l \<and> dbl (vx - h) = Some r \<and>
    dbl (1000 * max l r) = Some d \<and> fits_short d \<and>
    (vx \<noteq> 0 \<and> wz \<noteq> 0 \<longrightarrow> Option.bind (radius_expr vx wz) short_of_double \<noteq> None) \<longrightarrow>
      map_option (\<lambda>s. sint (speed s)) (setCommand vx wz s) = Some (truncate_double d))"
proof -
  have spin: "bias s = bias_init \<longrightarrow>
      setCommand 0 (1 / 2) s = Some (s\<lparr>radius := 1, speed := 74\<rparr>) \<and>
      serial_tx (sendCommand (s\<lparr>radius := 1, speed := 74\<rparr>)) =
        serial_tx s @ [0xaa, 0x55, 0x05, 0x01, 0x4a, 0x00, 0x01, 0x00, 0x4f] \<and>
      xor_bytes (take 6 (drop 2 [0xaa, 0x55, 0x05, 0x01, 0x4a, 0x00, 0x01, 0x00, 0x4f])) = 0x4f"
    by (simp add: setCommand_spin sendCommand_def command_frame_bytes union_byte0_def union_byte1_def
          xor_bytes_def)
  have gen: "map_option (\<lambda>s. sint (speed s)) (setCommand vx wz s) = Some (truncate_double d)"
    if ops: "dbl (bias s * wz) = Some t" "dbl (t / 2) = Some h"
        "dbl (vx + h) = Some l" "dbl (vx - h) = Some r" "dbl (1000 * max l r) = Some d"
      and f: "fits_short d"
      and g: "vx \<noteq> 0 \<and> wz \<noteq> 0 \<longrightarrow> Option.bind (radius_expr vx wz) short_of_double \<noteq> None"
  proof -
    have e: "speed_expr (bias s) vx wz = Some d"
      using ops by (simp add: speed_expr_def half_turn_def)
    obtain sp where sp: "short_of_double d = Some sp" "sint sp = truncate_double d"
      using sint_short_of_double [OF f] by (auto simp: short_of_double_def f)
    show ?thesis
    proof (cases "vx \<noteq> 0 \<and> wz \<noteq> 0")
      case True
      then obtain rd where "Option.bind (radius_expr vx wz) short_of_double = Some rd"
        using g by auto
      then show ?thesis using True e sp by (simp add: setCommand_def)
    next
      case False
      then show ?thesis using e sp by (auto simp: setCommand_def)
    qed
  qed
  show ?thesis using spin gen by blast
qed

lemma speed_steps_examples:
  "dbl (bias_init * (- 1)) = Some (- (5368290755825631 / 18014398509481984))"
  "dbl (- (5368290755825631 / 18014398509481984) / 2) = Some (- (5368290755825631 / 36028797018963968))"
  "dbl (- (1 / 8) + - (5368290755825631 / 36028797018963968)) = Some (- (308496574474879 / 1125899906842624))"
  "dbl (- (1 / 8) - - (5368290755825631 / 36028797018963968)) = Some (864691128455135 / 36028797018963968)"
  "dbl (1000 * max (- (308496574474879 / 1125899906842624)) (864691128455135 / 36028797018963968)) =
     Some (3377699720527871 / 140737488355328)"
  "dbl (bias_init * 1) = Some (5368290755825631 / 18014398509481984)"
  "dbl (5368290755825631 / 18014398509481984 / 2) = Some (5368290755825631 / 36028797018963968)"
  "dbl (0 + 5368290755825631 / 36028797018963968) = Some (5368290755825631 / 36028797018963968)"
  "dbl (0 - 5368290755825631 / 36028797018963968) = Some (- (5368290755825631 / 36028797018963968))"
  "dbl (1000 * max (5368290755825631 / 36028797018963968) (- (5368290755825631 / 36028797018963968))) =
     Some 149"
  unfolding bias_init_value
  by (simp_all add: dbl_eval)

lemma radius_defined_example:
  "Option.bind (radius_expr (- (1 / 8)) (- 1)) short_of_double = Some 125"
  by (simp add: radius_expr_def dbl_eval short_of_double_def fits_short_def truncate_double_def
        cong: bind_weak_cong)

theorem setCommand_spin_and_speed_witness:
  "bias example_state = bias_init \<and>
   setCommand 0 (1 / 2) example_state = Some (example_state\<lparr>radius := 1, speed := 74\<rparr>) \<and>
   serial_tx (sendCommand (example_state\<lparr>radius := 1, speed := 74\<rparr>)) =
     serial_tx example_state @ [0xaa, 0x55, 0x05, 0x01, 0x4a, 0x00, 0x01, 0x00, 0x4f] \<and>
   dbl (bias example_state * (- 1)) = Some (- (5368290755825631 / 18014398509481984)) \<and>
   dbl (- (5368290755825631 / 18014398509481984) / 2) = Some (- (5368290755825631 / 36028797018963968)) \<and>
   dbl (- (1 / 8) + - (5368290755825631 / 36028797018963968)) = Some (- (308496574474879 / 1125899906842624)) \<and>
   dbl (- (1 / 8) - - (5368290755825631 / 36028797018963968)) = Some (864691128455135 / 36028797018963968) \<and>
   dbl (1000 * max (- (308496574474879 / 1125899906842624)) (864691128455135 / 36028797018963968)) =
     Some (3377699720527871 / 140737488355328) \<and>
   fits_short (3377699720527871 / 140737488355328) \<and>
   Option.bind (radius_expr (- (1 / 8)) (- 1)) short_of_double \<noteq> None \<and>
   map_option (\<lambda>s. sint (speed s)) (setCommand (- (1 / 8)) (- 1) example_state) = Some 23 \<and>
   map_option (\<lambda>s. sint (speed s)) (setCommand 0 1 example_state) = Some 149"
  using setCommand_spin_and_speed
          [of example_state "- 1" "- (5368290755825631 / 18014398509481984)"
              "- (5368290755825631 / 36028797018963968)" "- (1 / 8)"
              "- (308496574474879 / 1125899906842624)" "864691128455135 / 36028797018963968"
              "3377699720527871 / 140737488355328"]
        setCommand_spin_and_speed
          [of example_state 1 "5368290755825631 / 18014398509481984"
              "5368290755825631 / 36028797018963968" 0
              "5368290755825631 / 36028797018963968" "- (5368290755825631 / 36028797018963968)"
              149]
        speed_steps_examples radius_defined_example fits_short_eval
  by (simp add: bias_example_state truncate_double_def)

text \<open>Claim C1 requires byte 8 of the motion frame to be the XOR of bytes 2 to 7. The
  loop of \<open>sendCommand\<close> stops at byte 6. After \<open>setCommand(0.0, -0.5)\<close> (\<open>radius = -1\<close>,
  \<open>speed = 74\<close>) it writes \<open>AA 55 05 01 4A 00 FF FF B1\<close>, while the XOR of bytes 2 to 7
  of that frame is \<open>4E\<close>.\<close>

theorem sendCommand_checksum_omits_byte7:
  "setCommand 0 (- (1 / 2)) example_state = Some (example_state\<lparr>radius := - 1, speed := 74\<rparr>) \<and>
   serial_tx (sendCommand (example_state\<lparr>radius := - 1, speed := 74\<rparr>)) =
     [0xaa, 0x55, 0x05, 0x01, 0x4a, 0x00, 0xff, 0xff, 0xb1] \<and>
   xor_bytes (take 6 (drop 2 [0xaa, 0x55, 0x05, 0x01, 0x4a, 0x00, 0xff, 0xff, 0xb1])) = 0x4e"
proof -
  have "setCommand 0 (- (1 / 2)) example_state =
      Some (example_state\<lparr>radius := - 1, speed := 74\<rparr>)"
    by (simp add: setCommand_spin_negative bias_example_state minus_one_word16)
  moreover have "serial_tx (sendCommand (example_state\<lparr>radius := - 1, speed := 74\<rparr>)) =
     [0xaa, 0x55, 0x05, 0x01, 0x4a, 0x00, 0xff, 0xff, 0xb1]"
    by (simp add: example_state_def sendCommand_def command_frame_bytes
          union_byte0_def union_byte1_def minus_one_word16)
  moreover have "xor_bytes (take 6 (drop 2 [0xaa, 0x55, 0x05, 0x01, 0x4a, 0x00, 0xff, 0xff, 0xb1])) = 0x4e"
    by (simp add: xor_bytes_def)
  ultimately show ?thesis by (simp only: simp_thms)
qed

text \<open>Claim C9 requires the motion frame to pass the checksum test of the packet
  finder. The frame written after \<open>setCommand(0.0, -0.5)\<close> fails \<open>checkSum\<close>; by
  \<open>checkSum_command_frame\<close> a motion frame passes exactly when the high byte of
  \<open>radius\<close> is 0.\<close>

theorem motion_frame_fails_checkSum:
  "setCommand 0 (- (1 / 2)) example_state = Some (example_state\<lparr>radius := - 1, speed := 74\<rparr>) \<and>
   command_frame 74 (- 1) = [0xaa, 0x55, 0x05, 0x01, 0x4a, 0x00, 0xff, 0xff, 0xb1] \<and>
   checkSum (command_frame 74 (- 1)) = False"
proof -
  have "command_frame 74 (- 1) = [0xaa, 0x55, 0x05, 0x01, 0x4a, 0x00, 0xff, 0xff, 0xb1]"
    by (simp add: command_frame_bytes union_byte0_def union_byte1_def minus_one_word16)
  moreover have "checkSum (command_frame 74 (- 1)) = False"
    by (simp add: checkSum_command_frame union_byte1_def minus_one_word16)
  moreover have "setCommand 0 (- (1 / 2)) example_state =
      Some (example_state\<lparr>radius := - 1, speed := 74\<rparr>)"
    by (simp add: setCommand_spin_negative bias_example_state minus_one_word16)
  ultimately show ?thesis by (simp only: simp_thms)
qed

subsection \<open>Frame dispatch\<close>

lemma deserialise_all_done:
  "\<not> 1 < length (data_buffer s) \<Longrightarrow> deserialise_all hid s = s"
  by (subst deserialise_all.simps) simp

lemma deserialise_all_known:
  "1 < length (data_buffer s) \<Longrightarrow> switch_header hid (data_buffer s ! 0) = Some h \<Longrightarrow>
   deserialise_all hid s =
     deserialise_all hid
       (deserialise h (s\<lparr>sig_index := set_insert (data_buffer s ! 0) (sig_index s)\<rparr>))"
  by (subst deserialise_all.simps) simp

lemma deserialise_all_unknown:
  "1 < length (data_buffer s) \<Longrightarrow> switch_header hid (data_buffer s ! 0) = None \<Longrightarrow>
   deserialise_all hid s = s\<lparr>data_buffer := []\<rparr>"
  by (subst deserialise_all.simps) (simp add: deserialise_all_done)

lemma emit_one_emitted:
  "emitted (emit_one hid b s) = emitted s @ emitted_for hid b"
  by (simp add: emit_one_def emitted_for_def split: option.split)

lemma emit_one_sig_index: "sig_index (emit_one hid b s) = sig_index s"
  by (simp add: emit_one_def split: option.split)

lemma fold_emit_one_emitted:
  "emitted (fold (emit_one hid) bs s) = emitted s @ concat (map (emitted_for hid) bs)"
  by (induction bs arbitrary: s) (simp_all add: emit_one_emitted)

lemma fold_emit_one_sig_index: "sig_index (fold (emit_one hid) bs s) = sig_index s"
  by (induction bs arbitrary: s) (simp_all add: emit_one_sig_index)

lemma emit_all_emitted:
  "emitted (emit_all hid s) = emitted s @ concat (map (emitted_for hid) (sig_index s))"
  by (simp add: emit_all_def fold_emit_one_emitted)

lemma emit_all_sig_index: "sig_index (emit_all hid s) = sig_index s"
  by (simp add: emit_all_def fold_emit_one_sig_index)

lemma deserialise_fields:
  "emitted (deserialise h s) = emitted s"
  "sig_index (deserialise h s) = sig_index s"
  "protocol_version (deserialise h s) = protocol_version s"
  by (simp_all add: deserialise_def Let_def)

lemma deserialise_all_emitted: "emitted (deserialise_all hid s) = emitted s"
proof (induction hid s rule: deserialise_all.induct)
  case (1 hid s)
  show ?case
  proof (cases "1 < length (data_buffer s)")
    case False
    then show ?thesis by (simp add: deserialise_all_done)
  next
    case True
    show ?thesis
    proof (cases "switch_header hid (data_buffer s ! 0)")
      case None
      then show ?thesis using True by (simp add: deserialise_all_unknown)
    next
      case (Some h)
      then show ?thesis
        using True "1.IH"(2) [OF True Some]
        by (simp add: deserialise_all_known deserialise_fields)
    qed
  qed
qed

lemma deserialise_all_protocol_version:
  "protocol_version (deserialise_all hid s) = protocol_version s"
proof (induction hid s rule: deserialise_all.induct)
  case (1 hid s)
  show ?case
  proof (cases "1 < length (data_buffer s)")
    case False
    then show ?thesis by (simp add: deserialise_all_done)
  next
    case True
    show ?thesis
    proof (cases "switch_header hid (data_buffer s ! 0)")
      case None
      then show ?thesis using True by (simp add: deserialise_all_unknown)
    next
      case (Some h)
      then show ?thesis
        using True "1.IH"(2) [OF True Some]
        by (simp add: deserialise_all_known deserialise_fields)
    qed
  qed
qed

lemma seen_ok_insert:
  "seen_ok hid bs \<Longrightarrow> switch_header hid b = Some h \<Longrightarrow> seen_ok hid (set_insert b bs)"
  by (auto simp: seen_ok_def set_insert_def strict_sorted_iff sorted_insort_insert
      distinct_insort_insert set_insort_insert list_all_iff)

lemma deserialise_all_seen_ok:
  "seen_ok hid (sig_index s) \<Longrightarrow> seen_ok hid (sig_index (deserialise_all hid s))"
proof (induction hid s rule: deserialise_all.induct)
  case (1 hid s)
  show ?case
  proof (cases "1 < length (data_buffer s)")
    case False
    then show ?thesis using "1.prems" by (simp add: deserialise_all_done)
  next
    case True
    show ?thesis
    proof (cases "switch_header hid (data_buffer s ! 0)")
      case None
      then show ?thesis using True "1.prems" by (simp add: deserialise_all_unknown)
    next
      case (Some h)
      have "seen_ok hid (sig_index (deserialise h
              (s\<lparr>sig_index := set_insert (data_buffer s ! 0) (sig_index s)\<rparr>)))"
        using seen_ok_insert [OF "1.prems" Some] by (simp add: deserialise_fields)
      then show ?thesis
        using True Some "1.IH"(2) [OF True Some]
        by (simp add: deserialise_all_known)
    qed
  qed
qed

lemma switch_header_default:
  "switch_header hid (hid header_default) = Some header_default"
  by (simp add: switch_header_def all_headers_def)

lemma switch_header_Some: "switch_header hid b = Some h \<Longrightarrow> hid h = b"
  by (auto simp: switch_header_def find_Some_iff)

lemma emitted_for_default:
  "emitted_for hid (hid header_default) = [sig_sensor_data, sig_wheel_state]"
  by (simp add: emitted_for_def switch_header_default)

lemma word_le_1_nonzero: "(b :: byte) \<noteq> 0 \<Longrightarrow> b \<le> 1 \<Longrightarrow> b = 1"
proof -
  assume nz: "b \<noteq> 0" and le: "b \<le> 1"
  have "unat b \<le> 1" using le by (simp add: word_le_nat_alt)
  moreover have "unat b \<noteq> 0" using nz by (simp add: word_unat_eq_iff)
  ultimately have "unat b = 1" by arith
  then show "b = 1" by (simp add: word_unat_eq_iff)
qed

lemma runnable_packet_fields:
  assumes "protocol_version s = ''2.0''"
  shows "sig_index (runnable_packet hid packet s) =
           sig_index (deserialise_all hid (s\<lparr>data_buffer := drop 3 packet, sig_index := []\<rparr>))"
    and "emitted (runnable_packet hid packet s) =
           emitted s @ concat (map (emitted_for hid) (sig_index (runnable_packet hid packet s)))"
  using assms
  by (simp_all add: runnable_packet_def Let_def sendCommand_def emit_all_emitted emit_all_sig_index
        deserialise_all_emitted deserialise_all_protocol_version)


lemma sig_index_packet_unknown:
  "sig_index (runnable_packet hid_seq packet_unknown example_state) = [1]"
  by (simp add: runnable_packet_fields example_state_def packet_unknown_def
        deserialise_all.simps deserialise_def switch_header_def all_headers_def set_insert_def
        insort_insert_key_def word_le_nat_alt Let_def)

lemma emitted_for_hid_seq:
  "emitted_for hid_seq 1 = [sig_sensor_data, sig_wheel_state]"
  "emitted_for hid_seq 3 = [sig_dock_ir]"
  by (simp_all add: emitted_for_def switch_header_def all_headers_def)

text \<open>Claim C5 says that an unrecognised header id abandons the ids seen earlier in
  the frame, so that no observer signal is emitted for them. For a frame whose payload
  is a default record followed by a record with the unknown id 0xff, \<open>sig_index\<close> keeps
  the id 0x01 and the signals of the default record are emitted.\<close>

theorem dispatch_unknown_header_counterexample:
  "sig_index (runnable_packet hid_seq packet_unknown example_state) = [1] \<and>
   emitted (runnable_packet hid_seq packet_unknown example_state) = [sig_sensor_data, sig_wheel_state]"
proof -
  have p: "protocol_version example_state = ''2.0''" by (simp add: example_state_def)
  have e: "emitted example_state = []" by (simp add: example_state_def)
  show ?thesis
    using runnable_packet_fields(2) [OF p, of hid_seq packet_unknown]
    by (simp add: sig_index_packet_unknown emitted_for_hid_seq e)
qed

text \<open>Claim C5, amended. When the dispatch loop meets an unrecognised header id, it
  clears the remainder of the payload and changes nothing else: no error is returned,
  the ids seen earlier in the frame stay in \<open>sig_index\<close>, and the second loop emits
  their observer signals.\<close>

theorem dispatch_unknown_header:
  "1 < length (data_buffer s) \<and> switch_header hid (data_buffer s ! 0) = None \<longrightarrow>
     deserialise_all hid s = s\<lparr>data_buffer := []\<rparr> \<and>
     emitted (emit_all hid (deserialise_all hid s)) =
       emitted s @ concat (map (emitted_for hid) (sig_index s))"
  by (simp add: deserialise_all_unknown emit_all_emitted)

theorem dispatch_unknown_header_witness:
  "1 < length (data_buffer (example_state\<lparr>data_buffer := [0xff, 1, 7, 0xe3], sig_index := [1]\<rparr>)) \<and>
   switch_header hid_seq
     (data_buffer (example_state\<lparr>data_buffer := [0xff, 1, 7, 0xe3], sig_index := [1]\<rparr>) ! 0) = None \<and>
   deserialise_all hid_seq (example_state\<lparr>data_buffer := [0xff, 1, 7, 0xe3], sig_index := [1]\<rparr>) =
     example_state\<lparr>data_buffer := [], sig_index := [1]\<rparr> \<and>
   emitted (emit_all hid_seq
      (deserialise_all hid_seq (example_state\<lparr>data_buffer := [0xff, 1, 7, 0xe3], sig_index := [1]\<rparr>))) =
     [sig_sensor_data, sig_wheel_state]"
proof -
  have e: "emitted example_state = []" by (simp add: example_state_def)
  have n: "switch_header hid_seq 0xff = None"
    by (simp add: switch_header_def all_headers_def)
  show ?thesis
    using dispatch_unknown_header
       [of "example_state\<lparr>data_buffer := [0xff, 1, 7, 0xe3], sig_index := [1]\<rparr>" hid_seq]
    by (auto simp: n e emitted_for_hid_seq)
qed

lemma header_in_all_headers: "h \<in> set all_headers"
  by (cases h) (simp_all add: all_headers_def)

lemma distinct_labels_inj:
  assumes "distinct (map hid all_headers)"
  shows "inj hid"
proof (rule injI)
  fix a b assume "hid a = hid b"
  then show "a = b"
    using assms header_in_all_headers [of a] header_in_all_headers [of b]
    by (auto simp: distinct_map dest: inj_onD)
qed

lemma switch_header_label:
  assumes "distinct (map hid all_headers)"
  shows "switch_header hid (hid h) = Some h"
proof -
  obtain h' where h': "switch_header hid (hid h) = Some h'"
    using header_in_all_headers [of h]
    by (cases "switch_header hid (hid h)") (auto simp: switch_header_def find_None_iff)
  then have "hid h' = hid h" by (auto simp: switch_header_def find_Some_iff)
  then have "h' = h" using distinct_labels_inj [OF assms] by (auto dest: injD)
  then show ?thesis using h' by simp
qed

lemma emit_header_observer_signals: "emit_header h = observer_signals h"
  by (cases h) (simp_all add: observer_signals_def)

lemma emitted_for_label:
  "distinct (map hid all_headers) \<Longrightarrow> emitted_for hid (hid h) = observer_signals h"
  by (simp add: emitted_for_def switch_header_label emit_header_observer_signals)

lemma deserialise_sub_record:
  assumes "data_buffer s = sub_record hid (h, d) @ rest" and "length d < 256"
  shows "data_buffer (deserialise h' s) = rest"
proof -
  have "unat (of_nat (length d) :: byte) = length d"
    using assms(2) by (simp add: unat_of_nat)
  then show ?thesis using assms(1) by (simp add: deserialise_def sub_record_def Let_def)
qed

lemma deserialise_all_payload:
  assumes "distinct (map hid all_headers)"
  shows "list_all (\<lambda>rc. length (snd rc) < 256) recs \<Longrightarrow>
         data_buffer s = payload hid recs @ [cks] \<Longrightarrow>
         sig_index (deserialise_all hid s) =
           fold (\<lambda>rc idx. set_insert (hid (fst rc)) idx) recs (sig_index s)"
proof (induction recs arbitrary: s)
  case Nil
  then show ?case by (simp add: payload_def deserialise_all_done)
next
  case (Cons rc recs)
  obtain h d where rc: "rc = (h, d)" by (cases rc)
  have buf: "data_buffer s = sub_record hid (h, d) @ (payload hid recs @ [cks])"
    using Cons.prems(2) by (simp add: payload_def rc)
  have len: "1 < length (data_buffer s)" and hd: "data_buffer s ! 0 = hid h"
    using buf by (simp_all add: sub_record_def)
  have sw: "switch_header hid (data_buffer s ! 0) = Some h"
    using switch_header_label [OF assms] hd by simp
  define s1 where "s1 = deserialise h (s\<lparr>sig_index := set_insert (data_buffer s ! 0) (sig_index s)\<rparr>)"
  have b1: "data_buffer s1 = payload hid recs @ [cks]"
    unfolding s1_def using Cons.prems(1) rc
    by (intro deserialise_sub_record [where hid = hid and h = h and d = d]) (simp_all add: buf)
  have i1: "sig_index s1 = set_insert (hid h) (sig_index s)"
    by (simp add: s1_def deserialise_fields hd)
  have "deserialise_all hid s = deserialise_all hid s1"
    using deserialise_all_known [OF len sw] by (simp add: s1_def)
  then show ?case
    using Cons.IH [OF _ b1] Cons.prems(1) by (simp add: i1 rc)
qed

lemma fold_set_insert:
  "sorted_wrt (<) idx \<Longrightarrow>
   sorted_wrt (<) (fold (\<lambda>rc idx. set_insert (hid (fst rc)) idx) recs idx) \<and>
   set (fold (\<lambda>rc idx. set_insert (hid (fst rc)) idx) recs idx) = hid ` fst ` set recs \<union> set idx"
proof (induction recs arbitrary: idx)
  case Nil
  then show ?case by simp
next
  case (Cons rc recs)
  have "sorted_wrt (<) (set_insert (hid (fst rc)) idx)"
    using Cons.prems
    by (simp add: set_insert_def strict_sorted_iff sorted_insort_insert distinct_insort_insert)
  from Cons.IH [OF this] show ?case
    by (auto simp: set_insert_def set_insort_insert)
qed

lemma seen_set_ids:
  assumes "distinct (map hid all_headers)"
  shows "sorted_wrt (<) (map hid (seen_set hid recs))"
    and "set (map hid (seen_set hid recs)) = hid ` fst ` set recs"
    and "set (seen_set hid recs) = fst ` set recs"
proof -
  have "inj_on hid (set (sort_key hid (remdups (map fst recs))))"
    using distinct_labels_inj [OF assms] by (rule inj_on_subset) simp
  then have "distinct (map hid (seen_set hid recs))"
    by (simp add: seen_set_def distinct_map)
  moreover have "sorted (map hid (seen_set hid recs))"
    by (simp add: seen_set_def)
  ultimately show "sorted_wrt (<) (map hid (seen_set hid recs))"
    by (simp add: strict_sorted_iff)
  show "set (map hid (seen_set hid recs)) = hid ` fst ` set recs"
    by (simp add: seen_set_def)
  show "set (seen_set hid recs) = fst ` set recs"
    by (simp add: seen_set_def)
qed

lemma sig_index_frame:
  assumes pv: "protocol_version s = ''2.0''"
    and dl: "distinct (map hid all_headers)"
    and ln: "list_all (\<lambda>rc. length (snd rc) < 256) recs"
  shows "sig_index (runnable_packet hid (b0 # b1 # b2 # payload hid recs @ [cks]) s) =
           map hid (seen_set hid recs)"
proof -
  define idx where "idx = sig_index (runnable_packet hid (b0 # b1 # b2 # payload hid recs @ [cks]) s)"
  have "idx = fold (\<lambda>rc idx. set_insert (hid (fst rc)) idx) recs []"
    unfolding idx_def runnable_packet_fields(1) [OF pv]
    using deserialise_all_payload [OF dl ln,
        of "s\<lparr>data_buffer := drop 3 (b0 # b1 # b2 # payload hid recs @ [cks]), sig_index := []\<rparr>" cks]
    by simp
  then have "sorted_wrt (<) idx" and "set idx = hid ` fst ` set recs"
    using fold_set_insert [of "[]" hid recs] by simp_all
  then have "idx = map hid (seen_set hid recs)"
    using seen_set_ids(1,2) [OF dl, of recs]
    by (intro sorted_distinct_set_unique) (simp_all add: strict_sorted_iff)
  then show ?thesis by (simp add: idx_def)
qed


lemma emitted_frame:
  assumes pv: "protocol_version s = ''2.0''"
    and dl: "distinct (map hid all_headers)"
    and ln: "list_all (\<lambda>rc. length (snd rc) < 256) recs"
  shows "emitted (runnable_packet hid (b0 # b1 # b2 # payload hid recs @ [cks]) s) =
           emitted s @ concat (map observer_signals (seen_set hid recs))"
proof -
  have "map (emitted_for hid) (map hid hs) = map observer_signals hs" for hs
    by (simp add: emitted_for_label [OF dl])
  then show ?thesis
    using runnable_packet_fields(2) [OF pv, of hid "b0 # b1 # b2 # payload hid recs @ [cks]"]
    by (simp only: sig_index_frame [OF pv dl ln])
qed

lemma seen_set_default_first:
  assumes dl: "distinct (map hid all_headers)"
    and d: "hid header_default = 1"
    and nz: "list_all (\<lambda>h. hid h \<noteq> 0) all_headers"
    and m: "header_default \<in> fst ` set recs"
  shows "\<exists>rest. seen_set hid recs = header_default # rest"
proof (cases "seen_set hid recs")
  case Nil
  then show ?thesis using m seen_set_ids(3) [OF dl, of recs] by simp
next
  case (Cons h0 rest)
  have "hid h0 \<noteq> 0"
    using nz header_in_all_headers [of h0] by (simp add: list_all_iff)
  moreover have "hid h0 \<le> 1"
  proof -
    have "header_default \<in> set (h0 # rest)"
      using m seen_set_ids(3) [OF dl, of recs] Cons by simp
    moreover have "sorted_wrt (<) (map hid (h0 # rest))"
      using seen_set_ids(1) [OF dl, of recs] Cons by simp
    ultimately show ?thesis using d by auto
  qed
  ultimately have "hid h0 = hid header_default"
    using d by (simp add: word_le_1_nonzero)
  then have "h0 = header_default"
    using distinct_labels_inj [OF dl] by (auto dest: injD)
  then show ?thesis using Cons by simp
qed

text \<open>Claim C7. For a frame handled under protocol version 2.0 whose payload is the
  sub-records \<open>recs\<close> followed by the checksum byte (the case labels being pairwise
  different): \<open>sig_index\<close> is exactly the header ids of the sub-records, strictly
  ascending; the signals emitted are, in that order, the channel of each id, and for
  the default id \<open>sensor_data\<close> immediately followed by \<open>joint_state\<close>; and when the
  default id is 0x01 and no header id is 0x00, a frame that contains the default
  record emits these two signals before any other.\<close>

theorem runnable_emits_ascending:
  assumes "protocol_version s = ''2.0''"
    and "distinct (map hid all_headers)"
    and "list_all (\<lambda>rc. length (snd rc) < 256) recs"
  shows "sig_index (runnable_packet hid (b0 # b1 # b2 # payload hid recs @ [cks]) s) =
           map hid (seen_set hid recs) \<and>
         sorted_wrt (<) (map hid (seen_set hid recs)) \<and>
         set (seen_set hid recs) = fst ` set recs \<and>
         emitted (runnable_packet hid (b0 # b1 # b2 # payload hid recs @ [cks]) s) =
           emitted s @ concat (map observer_signals (seen_set hid recs)) \<and>
         observer_signals header_default = [sig_sensor_data, sig_wheel_state] \<and>
         (hid header_default = 1 \<and> list_all (\<lambda>h. hid h \<noteq> 0) all_headers \<and>
          header_default \<in> fst ` set recs \<longrightarrow>
            (\<exists>rest. seen_set hid recs = header_default # rest \<and>
               emitted (runnable_packet hid (b0 # b1 # b2 # payload hid recs @ [cks]) s) =
                 emitted s @ [sig_sensor_data, sig_wheel_state] @
                   concat (map observer_signals rest)))"
proof -
  note em = emitted_frame [OF assms, of b0 b1 b2 cks]
  have first: "\<exists>rest. seen_set hid recs = header_default # rest \<and>
      emitted (runnable_packet hid (b0 # b1 # b2 # payload hid recs @ [cks]) s) =
        emitted s @ [sig_sensor_data, sig_wheel_state] @ concat (map observer_signals rest)"
    if h: "hid header_default = 1" "list_all (\<lambda>h. hid h \<noteq> 0) all_headers"
      "header_default \<in> fst ` set recs"
  proof -
    obtain rest where r: "seen_set hid recs = header_default # rest"
      using seen_set_default_first [OF assms(2) h] by blast
    show ?thesis using em by (simp add: r observer_signals_def)
  qed
  have ds: "observer_signals header_default = [sig_sensor_data, sig_wheel_state]"
    by (simp add: observer_signals_def)
  show ?thesis
    using sig_index_frame [OF assms, of b0 b1 b2 cks] seen_set_ids(1,3) [OF assms(2), of recs]
      em first ds
    by blast
qed

lemma distinct_hid_seq: "distinct (map hid_seq all_headers)"
  by (simp add: all_headers_def)

lemma nonzero_hid_seq: "list_all (\<lambda>h. hid_seq h \<noteq> 0) all_headers"
  by (simp add: all_headers_def)

lemma packet_two_payload: "packet_two = 0xaa # 0x55 # 22 # payload hid_seq records_two @ [0x1f]"
  by (simp add: packet_two_def payload_def sub_record_def records_two_def)

lemma seen_set_records_two: "seen_set hid_seq records_two = [header_default, header_dock_ir]"
  by (simp add: seen_set_def records_two_def word_le_nat_alt)

theorem runnable_emits_ascending_witness:
  "protocol_version example_state = ''2.0'' \<and>
   distinct (map hid_seq all_headers) \<and>
   list_all (\<lambda>rc. length (snd rc) < 256) records_two \<and>
   packet_two = 0xaa # 0x55 # 22 # payload hid_seq records_two @ [0x1f] \<and>
   hid_seq header_default = 1 \<and>
   header_default \<in> fst ` set records_two \<and>
   seen_set hid_seq records_two = [header_default, header_dock_ir] \<and>
   sig_index (runnable_packet hid_seq packet_two example_state) = [1, 3] \<and>
   emitted (runnable_packet hid_seq packet_two example_state) =
     [sig_sensor_data, sig_wheel_state, sig_dock_ir]"
proof -
  have p: "protocol_version example_state = ''2.0''" by (simp add: example_state_def)
  have e: "emitted example_state = []" by (simp add: example_state_def)
  have l: "list_all (\<lambda>rc. length (snd rc) < 256) records_two" by (simp add: records_two_def)
  have m: "header_default \<in> fst ` set records_two" by (simp add: records_two_def)
  show ?thesis
    using runnable_emits_ascending [OF p distinct_hid_seq l, of "0xaa" "0x55" 22 "0x1f"]
    by (simp add: packet_two_payload [symmetric] seen_set_records_two observer_signals_def
          e p l m distinct_hid_seq)
qed

end
